theory Spec2Isabelle
  imports Main "HOL-Library.Multiset"
begin

section \<open>Data model (app/models.py)\<close>

text \<open>
  A calendar date is its day ordinal and a timestamp is a count of microseconds; both are
  unbounded integers, ordered as the Python values are.
\<close>

type_synonym date = int
type_synonym datetime = int

datatype InvestmentStatus = RESEARCHING | WATCHLIST | INVESTED | REJECTED

datatype error = ValidationError | IntegrityError | DataError

text \<open>
  \<open>InvestmentIdea\<close> is the mapped class. The record describes an instance in memory:
  \<open>id\<close> is declared \<open>Optional[int]\<close>, and the five editable attributes hold an optional
  value because a table model does not validate on construction or on \<open>setattr\<close>, so
  that \<open>None\<close> can be assigned to them. The two timestamps are only ever assigned clock
  readings.
\<close>

record InvestmentIdea =
  id' :: "int option"
  title :: "string option"
  description :: "string option"
  idea_date :: "date option"
  status :: "InvestmentStatus option"
  notes' :: "string option"
  created_at :: datetime
  updated_at :: datetime

record InvestmentIdeaCreate =
  c_title :: string
  c_description :: string
  c_idea_date :: "date option"
  c_status :: InvestmentStatus
  c_notes :: string

text \<open>
  The fields of the Update view. A pydantic model remembers which fields were given
  explicitly (\<open>model_fields_set\<close>); a field that was not given holds its default
  \<open>None\<close>, and a field can also be given the value \<open>None\<close> explicitly.
\<close>

datatype field = F_title | F_description | F_idea_date | F_status | F_notes

record InvestmentIdeaUpdate =
  u_title :: "string option"
  u_description :: "string option"
  u_idea_date :: "date option"
  u_status :: "InvestmentStatus option"
  u_notes :: "string option"
  model_fields_set :: "field set"

record InvestmentIdeaRead =
  r_id :: int
  r_title :: string
  r_description :: string
  r_idea_date :: date
  r_status :: InvestmentStatus
  r_notes :: string
  r_created_at :: datetime
  r_updated_at :: datetime

text \<open>
  The constructor of \<open>InvestmentIdeaCreate\<close> with keyword arguments: \<open>title\<close> is
  required, every other argument may be omitted (\<open>None\<close> here) and then takes the
  default of its \<open>Field\<close>. The view is validated: the three texts have a maximal length.
\<close>

definition InvestmentIdeaCreate_init ::
  "string \<Rightarrow> string option \<Rightarrow> date option \<Rightarrow> InvestmentStatus option \<Rightarrow> string option
    \<Rightarrow> error + InvestmentIdeaCreate" where
  "InvestmentIdeaCreate_init title_arg description_arg idea_date_arg status_arg notes_arg =
     (let d = (case description_arg of None \<Rightarrow> [] | Some x \<Rightarrow> x);
          s = (case status_arg of None \<Rightarrow> RESEARCHING | Some x \<Rightarrow> x);
          n = (case notes_arg of None \<Rightarrow> [] | Some x \<Rightarrow> x)
      in if length title_arg \<le> 200 \<and> length d \<le> 2000 \<and> length n \<le> 5000
         then Inr \<lparr>c_title = title_arg, c_description = d, c_idea_date = idea_date_arg,
                   c_status = s, c_notes = n\<rparr>
         else Inl ValidationError)"

text \<open>
  The constructor call of \<open>create_investment_idea\<close>: the five attributes are passed,
  \<open>id\<close> keeps its default \<open>None\<close>, and \<open>created_at\<close> and \<open>updated_at\<close> each call their own
  \<open>default_factory\<close>, \<open>datetime.utcnow\<close>, in the order of declaration: two readings of
  the clock.
\<close>

definition InvestmentIdea_init ::
  "string \<Rightarrow> string \<Rightarrow> date option \<Rightarrow> InvestmentStatus \<Rightarrow> string \<Rightarrow> datetime \<Rightarrow> datetime
    \<Rightarrow> InvestmentIdea" where
  "InvestmentIdea_init t d dt s n utcnow1 utcnow2 =
     \<lparr>id' = None, title = Some t, description = Some d, idea_date = dt, status = Some s,
      notes' = Some n, created_at = utcnow1, updated_at = utcnow2\<rparr>"

text \<open>
  \<open>InvestmentIdeaRead.model_validate\<close>: every field of the Read view is required and
  not optional, so an instance with an attribute \<open>None\<close> is rejected.
\<close>

definition model_validate :: "InvestmentIdea \<Rightarrow> error + InvestmentIdeaRead" where
  "model_validate idea =
     (case (id' idea, title idea, description idea, idea_date idea, status idea, notes' idea) of
        (Some i, Some t, Some d, Some dt, Some s, Some n) \<Rightarrow>
          Inr \<lparr>r_id = i, r_title = t, r_description = d, r_idea_date = dt, r_status = s,
               r_notes = n, r_created_at = created_at idea, r_updated_at = updated_at idea\<rparr>
      | _ \<Rightarrow> Inl ValidationError)"

fun validate_all :: "InvestmentIdea list \<Rightarrow> error + InvestmentIdeaRead list" where
  "validate_all [] = Inr []"
| "validate_all (idea # ideas) =
     (case model_validate idea of
        Inl e \<Rightarrow> Inl e
      | Inr r \<Rightarrow> (case validate_all ideas of Inl e \<Rightarrow> Inl e | Inr rs \<Rightarrow> Inr (r # rs)))"

text \<open>
  \<open>update_data.model_dump(exclude_unset=True).items()\<close>: the fields of
  \<open>model_fields_set\<close>, in the order of declaration, each with its value.
\<close>

datatype assignment =
    Set_title "string option"
  | Set_description "string option"
  | Set_idea_date "date option"
  | Set_status "InvestmentStatus option"
  | Set_notes "string option"

definition model_dump_exclude_unset :: "InvestmentIdeaUpdate \<Rightarrow> assignment list" where
  "model_dump_exclude_unset u =
     (if F_title \<in> model_fields_set u then [Set_title (u_title u)] else []) @
     (if F_description \<in> model_fields_set u then [Set_description (u_description u)] else []) @
     (if F_idea_date \<in> model_fields_set u then [Set_idea_date (u_idea_date u)] else []) @
     (if F_status \<in> model_fields_set u then [Set_status (u_status u)] else []) @
     (if F_notes \<in> model_fields_set u then [Set_notes (u_notes u)] else [])"

fun setattr :: "InvestmentIdea \<Rightarrow> assignment \<Rightarrow> InvestmentIdea" where
  "setattr idea (Set_title v) = idea\<lparr>title := v\<rparr>"
| "setattr idea (Set_description v) = idea\<lparr>description := v\<rparr>"
| "setattr idea (Set_idea_date v) = idea\<lparr>idea_date := v\<rparr>"
| "setattr idea (Set_status v) = idea\<lparr>status := v\<rparr>"
| "setattr idea (Set_notes v) = idea\<lparr>notes' := v\<rparr>"

section \<open>The store\<close>

text \<open>
  \<open>app.database\<close>, with \<open>get_session\<close>, and the session it yields are not among the
  sources; what the service needs of them is modelled from the spec. An operation is one
  unit of work, and one that fails writes nothing. Failures of the storage itself are
  outside the model.
\<close>

text \<open>
  Modelled from the spec: a row of the table \<open>investment_ideas\<close> behind
  \<open>app.database\<close>, one row per idea, with the columns of the mapped class. Every column
  is declared with a type that is not optional in \<open>app/models.py\<close>, so no column accepts
  NULL: a row has a value in each. The three text columns have the \<open>max_length\<close> of the
  table class, 200, 2000 and 5000 characters.
\<close>

record investment_ideas_row =
  col_id :: int
  col_title :: string
  col_description :: string
  col_idea_date :: date
  col_status :: InvestmentStatus
  col_notes :: string
  col_created_at :: datetime
  col_updated_at :: datetime

text \<open>
  Modelled from the spec: the persisted state behind \<open>app.database\<close>, the rows of the one
  table in the order of insertion and the sequence from which the store assigns \<open>id\<close> at
  creation, unique and never reused.
\<close>

record database =
  investment_ideas :: "investment_ideas_row list"
  id_seq :: int

text \<open>Modelled from the spec: the state after \<open>app.database.reset_db\<close>, no row at all.\<close>

definition empty_database :: database where
  "empty_database = \<lparr>investment_ideas = [], id_seq = 1\<rparr>"

text \<open>Modelled from the spec: the session reads a row as an instance of the mapped class.\<close>

definition load :: "investment_ideas_row \<Rightarrow> InvestmentIdea" where
  "load r =
     \<lparr>id' = Some (col_id r), title = Some (col_title r), description = Some (col_description r),
      idea_date = Some (col_idea_date r), status = Some (col_status r),
      notes' = Some (col_notes r), created_at = col_created_at r,
      updated_at = col_updated_at r\<rparr>"

text \<open>
  Modelled from the spec: the session writes an instance as a row under a primary key;
  NULL in any column is refused, and so is a text longer than its column: the store
  accepts a title of up to 200 characters, a description of up to 2000 and notes of up
  to 5000.
\<close>

definition to_row :: "int \<Rightarrow> InvestmentIdea \<Rightarrow> error + investment_ideas_row" where
  "to_row pk idea =
     (case (title idea, description idea, idea_date idea, status idea, notes' idea) of
        (Some t, Some d, Some dt, Some s, Some n) \<Rightarrow>
          if length t \<le> 200 \<and> length d \<le> 2000 \<and> length n \<le> 5000
          then Inr \<lparr>col_id = pk, col_title = t, col_description = d, col_idea_date = dt,
                    col_status = s, col_notes = n, col_created_at = created_at idea,
                    col_updated_at = updated_at idea\<rparr>
          else Inl DataError
      | _ \<Rightarrow> Inl IntegrityError)"

text \<open>
  Modelled from the spec: \<open>session.get(InvestmentIdea, idea_id)\<close> on a session of
  \<open>app.database.get_session\<close>, the row with that primary key, if any.
\<close>

definition session_get :: "database \<Rightarrow> int \<Rightarrow> InvestmentIdea option" where
  "session_get db idea_id =
     map_option load (find (\<lambda>r. col_id r = idea_id) (investment_ideas db))"

text \<open>
  Modelled from the spec: \<open>session.add\<close>, \<open>session.commit\<close> and \<open>session.refresh\<close> of a
  new instance on a session of \<open>app.database.get_session\<close>. The row is inserted, under
  the next id of the sequence when the instance has none, and the instance is read back;
  a primary key already in use is refused.
\<close>

definition session_insert :: "database \<Rightarrow> InvestmentIdea \<Rightarrow> error + database \<times> InvestmentIdea" where
  "session_insert db idea =
     (let pk = (case id' idea of None \<Rightarrow> id_seq db | Some i \<Rightarrow> i)
      in if pk \<in> col_id ` set (investment_ideas db) then Inl IntegrityError
         else (case to_row pk idea of
                 Inl e \<Rightarrow> Inl e
               | Inr r \<Rightarrow>
                   Inr (\<lparr>investment_ideas = investment_ideas db @ [r],
                         id_seq = max (id_seq db) pk + 1\<rparr>, load r)))"

text \<open>
  Modelled from the spec: \<open>session.add\<close>, \<open>session.commit\<close> and \<open>session.refresh\<close> of an
  instance that was read from the table, on a session of \<open>app.database.get_session\<close>.
  Its row is rewritten and the instance is read back.
\<close>

definition session_update :: "database \<Rightarrow> InvestmentIdea \<Rightarrow> error + database \<times> InvestmentIdea" where
  "session_update db idea =
     (case id' idea of
        None \<Rightarrow> Inl IntegrityError
      | Some pk \<Rightarrow>
          (case to_row pk idea of
             Inl e \<Rightarrow> Inl e
           | Inr r \<Rightarrow>
               Inr (db\<lparr>investment_ideas :=
                         map (\<lambda>x. if col_id x = pk then r else x) (investment_ideas db)\<rparr>,
                    load r)))"

text \<open>
  Modelled from the spec: \<open>session.delete\<close> and \<open>session.commit\<close> on a session of
  \<open>app.database.get_session\<close>, after which the row of that primary key is gone.
\<close>

definition session_delete :: "database \<Rightarrow> int \<Rightarrow> database" where
  "session_delete db pk =
     db\<lparr>investment_ideas := filter (\<lambda>r. col_id r \<noteq> pk) (investment_ideas db)\<rparr>"

text \<open>
  Modelled from the spec: how the store behind \<open>app.database\<close> answers
  \<open>order_by(desc(InvestmentIdea.created_at))\<close>. Rows with the same \<open>created_at\<close> come
  in an order the store is free to choose; the model keeps them in table order. What is
  proved of a result below is that it is a permutation of the rows asked for and
  descending in \<open>created_at\<close>, which holds for any such choice, and its value for rows
  whose \<open>created_at\<close> differ.
\<close>

definition order_by_desc_created_at :: "investment_ideas_row list \<Rightarrow> investment_ideas_row list" where
  "order_by_desc_created_at rows = sort_key (\<lambda>r. - col_created_at r) rows"

section \<open>The service (app/investment_service.py)\<close>

text \<open>
  The clock is an input: \<open>today\<close> is what \<open>date.today()\<close> returns and \<open>utcnow1\<close>,
  \<open>utcnow2\<close>, \<open>utcnow\<close> are what the calls of \<open>datetime.utcnow()\<close> return, in the order in
  which the code makes them. The input object of \<open>create_investment_idea\<close> is assigned
  to, so the function returns it as well.
\<close>

definition create_investment_idea ::
  "date \<Rightarrow> datetime \<Rightarrow> datetime \<Rightarrow> InvestmentIdeaCreate \<Rightarrow> database
    \<Rightarrow> InvestmentIdeaCreate \<times> database \<times> (error + InvestmentIdeaRead)" where
  "create_investment_idea today utcnow1 utcnow2 idea_data db =
     (let idea_data1 = (if c_idea_date idea_data = None
                        then idea_data\<lparr>c_idea_date := Some today\<rparr> else idea_data);
          investment_idea =
            InvestmentIdea_init (c_title idea_data1) (c_description idea_data1)
              (c_idea_date idea_data1) (c_status idea_data1) (c_notes idea_data1)
              utcnow1 utcnow2
      in case session_insert db investment_idea of
           Inl e \<Rightarrow> (idea_data1, db, Inl e)
         | Inr (db1, refreshed) \<Rightarrow> (idea_data1, db1, model_validate refreshed))"

definition get_all_investment_ideas :: "database \<Rightarrow> error + InvestmentIdeaRead list" where
  "get_all_investment_ideas db =
     (let ideas = map load (order_by_desc_created_at (investment_ideas db))
      in validate_all ideas)"

definition get_investment_idea_by_id :: "database \<Rightarrow> int \<Rightarrow> error + InvestmentIdeaRead option" where
  "get_investment_idea_by_id db idea_id =
     (case session_get db idea_id of
        None \<Rightarrow> Inr None
      | Some idea \<Rightarrow> (case model_validate idea of Inl e \<Rightarrow> Inl e | Inr r \<Rightarrow> Inr (Some r)))"

definition update_investment_idea ::
  "datetime \<Rightarrow> int \<Rightarrow> InvestmentIdeaUpdate \<Rightarrow> database
    \<Rightarrow> database \<times> (error + InvestmentIdeaRead option)" where
  "update_investment_idea utcnow idea_id update_data db =
     (case session_get db idea_id of
        None \<Rightarrow> (db, Inr None)
      | Some idea \<Rightarrow>
          (let idea1 = fold (\<lambda>a i. setattr i a) (model_dump_exclude_unset update_data) idea;
               idea2 = idea1\<lparr>updated_at := utcnow\<rparr>
           in case session_update db idea2 of
                Inl e \<Rightarrow> (db, Inl e)
              | Inr (db1, refreshed) \<Rightarrow>
                  (case model_validate refreshed of
                     Inl e \<Rightarrow> (db1, Inl e)
                   | Inr r \<Rightarrow> (db1, Inr (Some r)))))"

definition delete_investment_idea :: "int \<Rightarrow> database \<Rightarrow> database \<times> bool" where
  "delete_investment_idea idea_id db =
     (case session_get db idea_id of
        None \<Rightarrow> (db, False)
      | Some idea \<Rightarrow> (session_delete db idea_id, True))"

definition get_ideas_by_status :: "InvestmentStatus \<Rightarrow> database \<Rightarrow> error + InvestmentIdeaRead list" where
  "get_ideas_by_status st db =
     (let ideas = map load (order_by_desc_created_at
                    (filter (\<lambda>r. col_status r = st) (investment_ideas db)))
      in validate_all ideas)"

section \<open>Notions used to state the properties\<close>

text \<open>The Read view of a stored row, and the row stored under an id.\<close>

definition read_of_row :: "investment_ideas_row \<Rightarrow> InvestmentIdeaRead" where
  "read_of_row r =
     \<lparr>r_id = col_id r, r_title = col_title r, r_description = col_description r,
      r_idea_date = col_idea_date r, r_status = col_status r, r_notes = col_notes r,
      r_created_at = col_created_at r, r_updated_at = col_updated_at r\<rparr>"

text \<open>The row that a call of \<open>create_investment_idea\<close> is expected to insert under \<open>pk\<close>.\<close>

definition inserted_row ::
  "int \<Rightarrow> date \<Rightarrow> datetime \<Rightarrow> datetime \<Rightarrow> InvestmentIdeaCreate \<Rightarrow> investment_ideas_row" where
  "inserted_row pk today utcnow1 utcnow2 idea_data =
     \<lparr>col_id = pk, col_title = c_title idea_data, col_description = c_description idea_data,
      col_idea_date = (case c_idea_date idea_data of None \<Rightarrow> today | Some x \<Rightarrow> x),
      col_status = c_status idea_data, col_notes = c_notes idea_data,
      col_created_at = utcnow1, col_updated_at = utcnow2\<rparr>"

definition row_of :: "database \<Rightarrow> int \<Rightarrow> investment_ideas_row option" where
  "row_of db i = find (\<lambda>r. col_id r = i) (investment_ideas db)"

definition stored_ids :: "database \<Rightarrow> int set" where
  "stored_ids db = col_id ` set (investment_ideas db)"

text \<open>
  A valid create input: a Create view whose texts are within the limits that its
  constructor checks. A row whose texts fit their columns.
\<close>

definition valid_create :: "InvestmentIdeaCreate \<Rightarrow> bool" where
  "valid_create idea_data \<longleftrightarrow>
     length (c_title idea_data) \<le> 200 \<and> length (c_description idea_data) \<le> 2000 \<and>
     length (c_notes idea_data) \<le> 5000"

definition valid_row :: "investment_ideas_row \<Rightarrow> bool" where
  "valid_row r \<longleftrightarrow>
     length (col_title r) \<le> 200 \<and> length (col_description r) \<le> 2000 \<and>
     length (col_notes r) \<le> 5000"

text \<open>
  A well-formed store: the primary key is unique, the sequence is ahead of every id in
  use and the texts of every row fit their columns. The empty store is well formed and
  every operation of the service keeps a store well formed.
\<close>

definition wf_database :: "database \<Rightarrow> bool" where
  "wf_database db \<longleftrightarrow>
     distinct (map col_id (investment_ideas db)) \<and>
     (\<forall>r \<in> set (investment_ideas db). col_id r < id_seq db \<and> valid_row r)"

text \<open>Descending order of \<open>created_at\<close> in a result.\<close>

definition created_at_descending :: "InvestmentIdeaRead list \<Rightarrow> bool" where
  "created_at_descending rs = sorted_wrt (\<lambda>a b. r_created_at b \<le> r_created_at a) rs"

text \<open>
  An Update view in which every field that was given has a value, that is, none was
  given as \<open>None\<close>.
\<close>

definition no_field_set_to_None :: "InvestmentIdeaUpdate \<Rightarrow> bool" where
  "no_field_set_to_None u \<longleftrightarrow>
     (F_title \<in> model_fields_set u \<longrightarrow> u_title u \<noteq> None) \<and>
     (F_description \<in> model_fields_set u \<longrightarrow> u_description u \<noteq> None) \<and>
     (F_idea_date \<in> model_fields_set u \<longrightarrow> u_idea_date u \<noteq> None) \<and>
     (F_status \<in> model_fields_set u \<longrightarrow> u_status u \<noteq> None) \<and>
     (F_notes \<in> model_fields_set u \<longrightarrow> u_notes u \<noteq> None)"

text \<open>
  The row that a call of \<open>update_investment_idea\<close> is expected to write over \<open>row\<close> when
  no field was given as \<open>None\<close> and the texts fit their columns: a field that was given
  takes the value given, any other keeps the value of \<open>row\<close>.
\<close>

definition updated_row ::
  "datetime \<Rightarrow> InvestmentIdeaUpdate \<Rightarrow> investment_ideas_row \<Rightarrow> investment_ideas_row" where
  "updated_row utcnow u row =
     \<lparr>col_id = col_id row,
      col_title = (if F_title \<in> model_fields_set u then the (u_title u) else col_title row),
      col_description =
        (if F_description \<in> model_fields_set u then the (u_description u)
         else col_description row),
      col_idea_date =
        (if F_idea_date \<in> model_fields_set u then the (u_idea_date u) else col_idea_date row),
      col_status = (if F_status \<in> model_fields_set u then the (u_status u) else col_status row),
      col_notes = (if F_notes \<in> model_fields_set u then the (u_notes u) else col_notes row),
      col_created_at = col_created_at row,
      col_updated_at = utcnow\<rparr>"

text \<open>
  The calls that change the store, each with the clock readings it makes, and the store
  after a sequence of calls.
\<close>

datatype operation =
    Create date datetime datetime InvestmentIdeaCreate
  | Update datetime int InvestmentIdeaUpdate
  | Delete int

fun perform :: "operation \<Rightarrow> database \<Rightarrow> database" where
  "perform (Create today utcnow1 utcnow2 idea_data) db =
     fst (snd (create_investment_idea today utcnow1 utcnow2 idea_data db))"
| "perform (Update utcnow idea_id update_data) db =
     fst (update_investment_idea utcnow idea_id update_data db)"
| "perform (Delete idea_id) db = fst (delete_investment_idea idea_id db)"

fun utcnow_readings :: "operation \<Rightarrow> datetime list" where
  "utcnow_readings (Create today utcnow1 utcnow2 idea_data) = [utcnow1, utcnow2]"
| "utcnow_readings (Update utcnow idea_id update_data) = [utcnow]"
| "utcnow_readings (Delete idea_id) = []"

fun is_valid_Create :: "operation \<Rightarrow> bool" where
  "is_valid_Create (Create today utcnow1 utcnow2 idea_data) = valid_create idea_data"
| "is_valid_Create (Update utcnow idea_id update_data) = False"
| "is_valid_Create (Delete idea_id) = False"

definition run :: "operation list \<Rightarrow> database \<Rightarrow> database" where
  "run ops db = fold perform ops db"

text \<open>
  Concrete data, after the repository's tests: a store holding one idea and one holding
  two, Create views
  with only a title, an Update view that gives only \<open>status\<close>, one that gives no field,
  and one that gives \<open>status\<close> and gives \<open>title\<close> as \<open>None\<close>.
\<close>

definition example_row :: investment_ideas_row where
  "example_row =
     \<lparr>col_id = 1, col_title = ''Original Title'', col_description = ''Original Description'',
      col_idea_date = 20, col_status = RESEARCHING, col_notes = ''Original Notes'',
      col_created_at = 100, col_updated_at = 101\<rparr>"

definition example_database :: database where
  "example_database = \<lparr>investment_ideas = [example_row], id_seq = 2\<rparr>"

definition example_row2 :: investment_ideas_row where
  "example_row2 =
     \<lparr>col_id = 2, col_title = ''Watchlist Idea'', col_description = [],
      col_idea_date = 21, col_status = WATCHLIST, col_notes = [],
      col_created_at = 150, col_updated_at = 151\<rparr>"

definition example_database2 :: database where
  "example_database2 = \<lparr>investment_ideas = [example_row, example_row2], id_seq = 3\<rparr>"

definition example_create :: InvestmentIdeaCreate where
  "example_create =
     \<lparr>c_title = ''Tesla Stock Analysis'', c_description = [], c_idea_date = None,
      c_status = RESEARCHING, c_notes = []\<rparr>"

definition example_first :: InvestmentIdeaCreate where
  "example_first =
     \<lparr>c_title = ''First Idea'', c_description = [], c_idea_date = None,
      c_status = RESEARCHING, c_notes = []\<rparr>"

definition example_second :: InvestmentIdeaCreate where
  "example_second =
     \<lparr>c_title = ''Second Idea'', c_description = [], c_idea_date = None,
      c_status = RESEARCHING, c_notes = []\<rparr>"

definition example_third :: InvestmentIdeaCreate where
  "example_third =
     \<lparr>c_title = ''Third Idea'', c_description = [], c_idea_date = None,
      c_status = RESEARCHING, c_notes = []\<rparr>"

definition example_update_status :: InvestmentIdeaUpdate where
  "example_update_status =
     \<lparr>u_title = None, u_description = None, u_idea_date = None, u_status = Some INVESTED,
      u_notes = None, model_fields_set = {F_status}\<rparr>"

definition example_update_empty :: InvestmentIdeaUpdate where
  "example_update_empty =
     \<lparr>u_title = None, u_description = None, u_idea_date = None, u_status = None,
      u_notes = None, model_fields_set = {}\<rparr>"

definition example_update_title_None :: InvestmentIdeaUpdate where
  "example_update_title_None =
     \<lparr>u_title = None, u_description = None, u_idea_date = None, u_status = Some INVESTED,
      u_notes = None, model_fields_set = {F_title, F_status}\<rparr>"

section \<open>Facts about the store\<close>

lemma model_validate_load: "model_validate (load r) = Inr (read_of_row r)"
  by (simp add: model_validate_def load_def read_of_row_def)

lemma validate_all_load: "validate_all (map load rows) = Inr (map read_of_row rows)"
  by (induction rows) (simp_all add: model_validate_load)

lemma session_get_row_of: "session_get db i = map_option load (row_of db i)"
  by (simp add: session_get_def row_of_def)

lemma row_of_None_iff: "row_of db i = None \<longleftrightarrow> i \<notin> stored_ids db"
  by (auto simp: row_of_def stored_ids_def find_None_iff)

lemma row_of_SomeD: "row_of db i = Some r \<Longrightarrow> r \<in> set (investment_ideas db) \<and> col_id r = i"
  by (auto simp: row_of_def find_Some_iff)

lemma find_replace:
  "col_id r = i \<Longrightarrow>
   find (\<lambda>x. col_id x = j) (map (\<lambda>x. if col_id x = i then r else x) xs) =
     (if j = i then (if i \<in> col_id ` set xs then Some r else None)
      else find (\<lambda>x. col_id x = j) xs)"
  by (induction xs) auto

lemma map_col_id_replace:
  "col_id r = i \<Longrightarrow> map col_id (map (\<lambda>x. if col_id x = i then r else x) xs) = map col_id xs"
  by (induction xs) auto

lemma find_append_rows:
  "find P (xs @ ys) = (case find P xs of None \<Rightarrow> find P ys | Some x \<Rightarrow> Some x)"
  by (induction xs) simp_all

lemma find_filter_other:
  "find (\<lambda>r. col_id r = j) (filter (\<lambda>r. col_id r \<noteq> i) (xs :: investment_ideas_row list)) =
     (if j = i then None else find (\<lambda>r. col_id r = j) xs)"
  by (induction xs) auto

lemma row_of_append_old:
  "i \<in> stored_ids db \<Longrightarrow>
   row_of \<lparr>investment_ideas = investment_ideas db @ [r], id_seq = n\<rparr> i = row_of db i"
  by (auto simp: row_of_def stored_ids_def find_append_rows find_None_iff split: option.splits)

lemma row_of_append_new:
  assumes "i \<notin> stored_ids db" and "col_id r = i"
  shows "row_of \<lparr>investment_ideas = investment_ideas db @ [r], id_seq = n\<rparr> i = Some r"
proof -
  have "find (\<lambda>x. col_id x = i) (investment_ideas db) = None"
    using assms(1) unfolding stored_ids_def find_None_iff by (metis imageI)
  then show ?thesis using assms(2) by (simp add: row_of_def find_append_rows)
qed

lemma row_of_replace:
  "col_id r = i \<Longrightarrow>
   row_of (db\<lparr>investment_ideas := map (\<lambda>x. if col_id x = i then r else x) (investment_ideas db)\<rparr>) j =
     (if j = i then (if i \<in> stored_ids db then Some r else None) else row_of db j)"
  by (simp add: row_of_def stored_ids_def find_replace)

lemma row_of_delete:
  "row_of (session_delete db i) j = (if j = i then None else row_of db j)"
  by (simp add: row_of_def session_delete_def find_filter_other)

lemma stored_ids_delete: "stored_ids (session_delete db i) = stored_ids db - {i}"
  by (auto simp: stored_ids_def session_delete_def)

lemma wf_fresh: "wf_database db \<Longrightarrow> id_seq db \<notin> stored_ids db"
  by (auto simp: wf_database_def stored_ids_def)

lemma wf_empty: "wf_database empty_database"
  by (simp add: wf_database_def empty_database_def)

section \<open>What each call of the service computes\<close>

lemma get_all_eq:
  "get_all_investment_ideas db =
     Inr (map read_of_row (order_by_desc_created_at (investment_ideas db)))"
  by (simp add: get_all_investment_ideas_def validate_all_load)

lemma get_by_status_eq:
  "get_ideas_by_status st db =
     Inr (map read_of_row (order_by_desc_created_at
            (filter (\<lambda>r. col_status r = st) (investment_ideas db))))"
  by (simp add: get_ideas_by_status_def validate_all_load)

lemma get_by_id_eq:
  "get_investment_idea_by_id db i = Inr (map_option read_of_row (row_of db i))"
  by (cases "row_of db i")
     (simp_all add: get_investment_idea_by_id_def session_get_row_of model_validate_load)

lemma created_at_descending_order_by:
  "created_at_descending (map read_of_row (order_by_desc_created_at rows))"
proof -
  have "sorted (map (\<lambda>r. - col_created_at r) (sort_key (\<lambda>r. - col_created_at r) rows))"
    by (rule sorted_sort_key)
  then have "sorted_wrt (\<lambda>a b. col_created_at b \<le> col_created_at a)
               (sort_key (\<lambda>r. - col_created_at r) rows)"
    by (simp add: sorted_wrt_map)
  then show ?thesis
    by (simp add: created_at_descending_def order_by_desc_created_at_def sorted_wrt_map
        read_of_row_def)
qed

lemma mset_order_by: "mset (order_by_desc_created_at rows) = mset rows"
  by (simp add: order_by_desc_created_at_def)

lemma create_eq:
  assumes "id_seq db \<notin> stored_ids db" and "valid_create d"
  shows "create_investment_idea today t1 t2 d db =
    (if c_idea_date d = None then d\<lparr>c_idea_date := Some today\<rparr> else d,
     \<lparr>investment_ideas = investment_ideas db @ [inserted_row (id_seq db) today t1 t2 d],
      id_seq = id_seq db + 1\<rparr>,
     Inr (read_of_row (inserted_row (id_seq db) today t1 t2 d)))"
  using assms
  by (simp add: create_investment_idea_def InvestmentIdea_init_def session_insert_def
      to_row_def stored_ids_def model_validate_load inserted_row_def valid_create_def Let_def
      split: option.splits)

lemma create_conflict:
  "id_seq db \<in> stored_ids db \<Longrightarrow>
   fst (snd (create_investment_idea today t1 t2 d db)) = db"
  by (simp add: create_investment_idea_def InvestmentIdea_init_def session_insert_def
      stored_ids_def Let_def)

lemma create_invalid:
  "\<not> valid_create d \<Longrightarrow>
   fst (snd (create_investment_idea today t1 t2 d db)) = db"
  by (cases "c_idea_date d")
     (auto simp: create_investment_idea_def InvestmentIdea_init_def session_insert_def
        to_row_def valid_create_def Let_def)

lemma create_rows:
  "investment_ideas (fst (snd (create_investment_idea today t1 t2 d db))) =
     (if id_seq db \<in> stored_ids db \<or> \<not> valid_create d then investment_ideas db
      else investment_ideas db @ [inserted_row (id_seq db) today t1 t2 d])"
  by (auto simp: create_conflict create_invalid create_eq)

lemma valid_inserted_row: "valid_row (inserted_row pk today t1 t2 d) = valid_create d"
  by (simp add: valid_row_def valid_create_def inserted_row_def)

lemma fold_setattr_load:
  "fold (\<lambda>a i. setattr i a) (model_dump_exclude_unset u) (load row) =
     \<lparr>id' = Some (col_id row),
      title = (if F_title \<in> model_fields_set u then u_title u else Some (col_title row)),
      description = (if F_description \<in> model_fields_set u then u_description u
                     else Some (col_description row)),
      idea_date = (if F_idea_date \<in> model_fields_set u then u_idea_date u
                   else Some (col_idea_date row)),
      status = (if F_status \<in> model_fields_set u then u_status u else Some (col_status row)),
      notes' = (if F_notes \<in> model_fields_set u then u_notes u else Some (col_notes row)),
      created_at = col_created_at row, updated_at = col_updated_at row\<rparr>"
  by (simp add: model_dump_exclude_unset_def load_def)

lemma to_row_None:
  "title idea = None \<or> description idea = None \<or> idea_date idea = None \<or> status idea = None
     \<or> notes' idea = None \<Longrightarrow> to_row pk idea = Inl IntegrityError"
  by (auto simp: to_row_def split: option.splits)

lemma to_row_Some:
  "title idea = Some t \<Longrightarrow> description idea = Some d \<Longrightarrow> idea_date idea = Some dt \<Longrightarrow>
   status idea = Some s \<Longrightarrow> notes' idea = Some n \<Longrightarrow>
   to_row pk idea =
     (if length t \<le> 200 \<and> length d \<le> 2000 \<and> length n \<le> 5000
      then Inr \<lparr>col_id = pk, col_title = t, col_description = d, col_idea_date = dt,
                col_status = s, col_notes = n, col_created_at = created_at idea,
                col_updated_at = updated_at idea\<rparr>
      else Inl DataError)"
  by (simp add: to_row_def)

lemma session_update_given_None:
  assumes "\<not> no_field_set_to_None u"
  shows "session_update db
           ((fold (\<lambda>a i. setattr i a) (model_dump_exclude_unset u) (load row))\<lparr>updated_at := t\<rparr>)
         = Inl IntegrityError"
proof -
  let ?idea = "(fold (\<lambda>a i. setattr i a) (model_dump_exclude_unset u) (load row))\<lparr>updated_at := t\<rparr>"
  have "title ?idea = None \<or> description ?idea = None \<or> idea_date ?idea = None
      \<or> status ?idea = None \<or> notes' ?idea = None"
    using assms unfolding fold_setattr_load no_field_set_to_None_def by auto
  then have "to_row (col_id row) ?idea = Inl IntegrityError" by (rule to_row_None)
  moreover have "id' ?idea = Some (col_id row)" by (simp add: fold_setattr_load)
  ultimately show ?thesis by (simp add: session_update_def)
qed

lemma to_row_given:
  assumes "no_field_set_to_None u"
  shows "to_row (col_id row)
           ((fold (\<lambda>a i. setattr i a) (model_dump_exclude_unset u) (load row))\<lparr>updated_at := t\<rparr>)
         = (if valid_row (updated_row t u row) then Inr (updated_row t u row) else Inl DataError)"
proof -
  let ?idea = "(fold (\<lambda>a i. setattr i a) (model_dump_exclude_unset u) (load row))\<lparr>updated_at := t\<rparr>"
  let ?r = "updated_row t u row"
  have 1: "title ?idea = Some (col_title ?r)"
    using assms by (auto simp: fold_setattr_load no_field_set_to_None_def updated_row_def)
  have 2: "description ?idea = Some (col_description ?r)"
    using assms by (auto simp: fold_setattr_load no_field_set_to_None_def updated_row_def)
  have 3: "idea_date ?idea = Some (col_idea_date ?r)"
    using assms by (auto simp: fold_setattr_load no_field_set_to_None_def updated_row_def)
  have 4: "status ?idea = Some (col_status ?r)"
    using assms by (auto simp: fold_setattr_load no_field_set_to_None_def updated_row_def)
  have 5: "notes' ?idea = Some (col_notes ?r)"
    using assms by (auto simp: fold_setattr_load no_field_set_to_None_def updated_row_def)
  have 6: "created_at ?idea = col_created_at ?r" "updated_at ?idea = col_updated_at ?r"
    "col_id ?r = col_id row"
    by (simp_all add: fold_setattr_load updated_row_def)
  have eq: "\<lparr>col_id = col_id row, col_title = col_title ?r, col_description = col_description ?r,
      col_idea_date = col_idea_date ?r, col_status = col_status ?r, col_notes = col_notes ?r,
      col_created_at = created_at ?idea, col_updated_at = updated_at ?idea\<rparr> = ?r"
    by (simp add: 6(1,2) flip: 6(3))
  show ?thesis
    unfolding to_row_Some [OF 1 2 3 4 5] eq valid_row_def by simp
qed

lemma update_eq:
  assumes "row_of db i = Some row"
  shows "update_investment_idea t i u db =
    (if \<not> no_field_set_to_None u then (db, Inl IntegrityError)
     else if \<not> valid_row (updated_row t u row) then (db, Inl DataError)
     else (db\<lparr>investment_ideas :=
                map (\<lambda>x. if col_id x = i then updated_row t u row else x) (investment_ideas db)\<rparr>,
           Inr (Some (read_of_row (updated_row t u row)))))"
proof -
  let ?idea = "(fold (\<lambda>a i. setattr i a) (model_dump_exclude_unset u) (load row))\<lparr>updated_at := t\<rparr>"
  have i: "col_id row = i" using assms by (simp add: row_of_SomeD)
  have get: "session_get db i = Some (load row)" by (simp add: session_get_row_of assms)
  have upd: "update_investment_idea t i u db =
      (case session_update db ?idea of
         Inl e \<Rightarrow> (db, Inl e)
       | Inr (db1, refreshed) \<Rightarrow>
           (case model_validate refreshed of
              Inl e \<Rightarrow> (db1, Inl e)
            | Inr r \<Rightarrow> (db1, Inr (Some r))))"
    by (simp add: update_investment_idea_def get Let_def)
  show ?thesis
  proof (cases "no_field_set_to_None u")
    case False
    then show ?thesis by (simp add: upd session_update_given_None)
  next
    case True
    have id: "id' ?idea = Some i" by (simp add: fold_setattr_load i)
    have "session_update db ?idea =
        (if valid_row (updated_row t u row)
         then Inr (db\<lparr>investment_ideas :=
                map (\<lambda>x. if col_id x = i then updated_row t u row else x) (investment_ideas db)\<rparr>,
              load (updated_row t u row))
         else Inl DataError)"
      using to_row_given [OF True, of row t] by (simp add: session_update_def id i)
    then show ?thesis using True by (simp add: upd model_validate_load)
  qed
qed

lemma update_missing:
  "row_of db i = None \<Longrightarrow> update_investment_idea t i u db = (db, Inr None)"
  by (simp add: update_investment_idea_def session_get_row_of)

lemma update_rows:
  "investment_ideas (fst (update_investment_idea t i u db)) =
     (case row_of db i of
        None \<Rightarrow> investment_ideas db
      | Some row \<Rightarrow>
          if no_field_set_to_None u \<and> valid_row (updated_row t u row)
          then map (\<lambda>x. if col_id x = i then updated_row t u row else x) (investment_ideas db)
          else investment_ideas db)"
  by (cases "row_of db i") (simp_all add: update_missing update_eq)

lemma update_id_seq: "id_seq (fst (update_investment_idea t i u db)) = id_seq db"
  by (cases "row_of db i") (simp_all add: update_missing update_eq)

lemma delete_eq:
  "delete_investment_idea i db =
     (if i \<in> stored_ids db then (session_delete db i, True) else (db, False))"
  using row_of_None_iff [of db i]
  by (cases "row_of db i") (simp_all add: delete_investment_idea_def session_get_row_of)

section \<open>Every call keeps the store well formed\<close>

lemma wf_create:
  assumes "wf_database db"
  shows "wf_database (fst (snd (create_investment_idea today t1 t2 d db)))"
proof (cases "valid_create d")
  case True
  have fresh: "id_seq db \<notin> stored_ids db" by (rule wf_fresh [OF assms])
  have "col_id (inserted_row (id_seq db) today t1 t2 d) = id_seq db"
    by (simp add: inserted_row_def)
  then show ?thesis
    using assms fresh True
    by (auto simp: create_eq [OF fresh True] wf_database_def stored_ids_def valid_inserted_row)
next
  case False
  then show ?thesis using assms by (simp add: create_invalid)
qed

lemma wf_update:
  assumes "wf_database db"
  shows "wf_database (fst (update_investment_idea t i u db))"
proof (cases "row_of db i")
  case None
  then show ?thesis using assms by (simp add: update_missing)
next
  case (Some row)
  have id: "col_id (updated_row t u row) = i"
    using row_of_SomeD [OF Some] by (simp add: updated_row_def)
  have "i \<in> stored_ids db" using Some row_of_None_iff [of db i] by auto
  then have "i < id_seq db" using assms by (auto simp: wf_database_def stored_ids_def)
  then show ?thesis
    using assms id
    by (auto simp: wf_database_def update_rows update_id_seq Some map_col_id_replace
        simp del: map_map)
qed

lemma wf_delete:
  "wf_database db \<Longrightarrow> wf_database (fst (delete_investment_idea i db))"
  by (auto simp: delete_eq wf_database_def session_delete_def distinct_map_filter)

lemma wf_perform: "wf_database db \<Longrightarrow> wf_database (perform op db)"
  by (cases op) (simp_all add: wf_create wf_update wf_delete)

lemma wf_run: "wf_database db \<Longrightarrow> wf_database (run ops db)"
  unfolding run_def by (induction ops arbitrary: db) (simp_all add: wf_perform)

section \<open>The example data\<close>

lemma row_of_example: "row_of example_database 1 = Some example_row"
  by (simp add: row_of_def example_database_def example_row_def)

lemma stored_ids_example: "stored_ids example_database = {1}"
  by (simp add: stored_ids_def example_database_def example_row_def)

lemma valid_example_row: "valid_row example_row"
  by (simp add: valid_row_def example_row_def)

lemma wf_example: "wf_database example_database"
  by (simp add: wf_database_def example_database_def valid_example_row)
     (simp add: example_row_def)

lemma valid_example_create: "valid_create example_create"
  by (simp add: valid_create_def example_create_def)

lemma col_id_example: "col_id example_row = 1"
  by (simp add: example_row_def)

lemma update_example_status:
  "update_investment_idea 200 1 example_update_status example_database =
     (\<lparr>investment_ideas = [example_row\<lparr>col_status := INVESTED, col_updated_at := 200\<rparr>],
       id_seq = 2\<rparr>,
      Inr (Some (read_of_row (example_row\<lparr>col_status := INVESTED, col_updated_at := 200\<rparr>))))"
proof -
  let ?r = "example_row\<lparr>col_status := INVESTED, col_updated_at := 200\<rparr>"
  have ok: "no_field_set_to_None example_update_status"
    by (simp add: no_field_set_to_None_def example_update_status_def)
  have row: "updated_row 200 example_update_status example_row = ?r"
    by (simp add: updated_row_def example_update_status_def example_row_def)
  have valid: "valid_row ?r"
    using valid_example_row by (simp add: valid_row_def)
  have "update_investment_idea 200 1 example_update_status example_database =
          (example_database\<lparr>investment_ideas :=
             map (\<lambda>x. if col_id x = 1 then ?r else x) (investment_ideas example_database)\<rparr>,
           Inr (Some (read_of_row ?r)))"
    using ok valid by (simp add: update_eq [OF row_of_example] row)
  then show ?thesis
    using col_id_example by (simp add: example_database_def)
qed

section \<open>Reading by id\<close>

text \<open>
  C6: for an id that no row of the table has, \<open>get_investment_idea_by_id\<close> returns
  \<open>None\<close> as an ordinary result, not an error; in particular for any id on the empty
  store.
\<close>

theorem get_by_id_missing:
  "(i \<notin> stored_ids db \<longrightarrow> get_investment_idea_by_id db i = Inr None)
   \<and> get_investment_idea_by_id empty_database i = Inr None"
  using row_of_None_iff [of db i]
  by (simp add: get_by_id_eq row_of_def empty_database_def)

theorem get_by_id_missing_witness:
  "999 \<notin> stored_ids example_database
   \<and> get_investment_idea_by_id example_database 999 = Inr None
   \<and> get_investment_idea_by_id empty_database 999 = Inr None"
  using get_by_id_missing [of 999 example_database]
  by (simp add: stored_ids_example)

section \<open>Creating\<close>

lemma InvestmentIdeaCreate_init_eq:
  "InvestmentIdeaCreate_init title_arg description_arg idea_date_arg status_arg notes_arg =
     (if length title_arg \<le> 200
         \<and> length (case description_arg of None \<Rightarrow> [] | Some x \<Rightarrow> x) \<le> 2000
         \<and> length (case notes_arg of None \<Rightarrow> [] | Some x \<Rightarrow> x) \<le> 5000
      then Inr \<lparr>c_title = title_arg,
                c_description = (case description_arg of None \<Rightarrow> [] | Some x \<Rightarrow> x),
                c_idea_date = idea_date_arg,
                c_status = (case status_arg of None \<Rightarrow> RESEARCHING | Some x \<Rightarrow> x),
                c_notes = (case notes_arg of None \<Rightarrow> [] | Some x \<Rightarrow> x)\<rparr>
      else Inl ValidationError)"
  by (simp add: InvestmentIdeaCreate_init_def Let_def)

lemma InvestmentIdeaCreate_init_valid:
  "InvestmentIdeaCreate_init title_arg description_arg idea_date_arg status_arg notes_arg
     = Inr idea_data \<Longrightarrow> valid_create idea_data"
  by (auto simp: InvestmentIdeaCreate_init_eq valid_create_def split: if_splits)

lemma valid_create_init:
  "valid_create d \<Longrightarrow>
   InvestmentIdeaCreate_init (c_title d) (Some (c_description d)) (c_idea_date d)
     (Some (c_status d)) (Some (c_notes d)) = Inr d"
  by (simp add: InvestmentIdeaCreate_init_eq valid_create_def)

text \<open>
  C2, as amended: for every valid create input, on a well-formed store,
  \<open>create_investment_idea\<close> returns an entity whose id is the next value of the store's
  sequence, an id no stored row had, and the entity can be read back under that id.
  Both timestamps are set to the time of creation, each from a reading of the clock of
  its own: \<open>created_at\<close> is the first and \<open>updated_at\<close> the second of the two readings
  that the constructor makes, and the two are equal exactly when both readings are.
\<close>

theorem create_assigns_id_and_timestamps:
  assumes "wf_database db" and "valid_create d"
  shows "\<exists>r. snd (snd (create_investment_idea today t1 t2 d db)) = Inr r
           \<and> r_id r = id_seq db \<and> r_id r \<notin> stored_ids db
           \<and> get_investment_idea_by_id
                (fst (snd (create_investment_idea today t1 t2 d db))) (r_id r) = Inr (Some r)
           \<and> r_created_at r = t1 \<and> r_updated_at r = t2
           \<and> (r_created_at r = r_updated_at r \<longleftrightarrow> t1 = t2)"
proof -
  let ?row = "inserted_row (id_seq db) today t1 t2 d"
  have fresh: "id_seq db \<notin> stored_ids db" by (rule wf_fresh [OF assms(1)])
  note eq = create_eq [OF fresh assms(2)]
  have id: "col_id ?row = id_seq db" by (simp add: inserted_row_def)
  have "row_of (fst (snd (create_investment_idea today t1 t2 d db))) (id_seq db) = Some ?row"
    by (simp add: eq row_of_append_new [OF fresh id])
  then show ?thesis
    using fresh by (simp add: eq get_by_id_eq read_of_row_def inserted_row_def)
qed

theorem create_assigns_id_and_timestamps_witness:
  "wf_database example_database \<and> valid_create example_create
   \<and> (\<exists>r. snd (snd (create_investment_idea 20 300 301 example_create example_database)) = Inr r
           \<and> r_id r = id_seq example_database \<and> r_id r \<notin> stored_ids example_database
           \<and> get_investment_idea_by_id
                (fst (snd (create_investment_idea 20 300 301 example_create example_database)))
                (r_id r) = Inr (Some r)
           \<and> r_created_at r = 300 \<and> r_updated_at r = 301
           \<and> (r_created_at r = r_updated_at r \<longleftrightarrow> (300::int) = 301))"
  using create_assigns_id_and_timestamps [OF wf_example valid_example_create, of 20 300 301]
    wf_example valid_example_create
  by blast

text \<open>
  C2 as stated fails: the two timestamps come from two readings of the clock, and with
  the readings 100 and 101 the returned entity has \<open>created_at = 100\<close> and
  \<open>updated_at = 101\<close>.
\<close>

theorem create_timestamps_counterexample:
  "snd (snd (create_investment_idea 20 100 101 example_create empty_database)) =
     Inr \<lparr>r_id = 1, r_title = ''Tesla Stock Analysis'', r_description = [], r_idea_date = 20,
          r_status = RESEARCHING, r_notes = [], r_created_at = 100, r_updated_at = 101\<rparr>
   \<and> r_created_at (projr (snd (snd (create_investment_idea 20 100 101 example_create
         empty_database))))
     \<noteq> r_updated_at (projr (snd (snd (create_investment_idea 20 100 101 example_create
         empty_database))))"
proof -
  have fresh: "id_seq empty_database \<notin> stored_ids empty_database"
    by (simp add: stored_ids_def empty_database_def)
  have "snd (snd (create_investment_idea 20 100 101 example_create empty_database)) =
          Inr (read_of_row (inserted_row (id_seq empty_database) 20 100 101 example_create))"
    by (simp add: create_eq [OF fresh valid_example_create])
  then show ?thesis
    by (simp add: read_of_row_def inserted_row_def example_create_def empty_database_def)
qed

text \<open>
  C3: the constructor of the Create view accepts every call whose texts are within the
  limits, whichever of the optional arguments are omitted, and the view it builds holds
  the defaults for them. The entity that \<open>create_investment_idea\<close> returns for that view
  on a well-formed store carries them: \<open>description\<close> and \<open>notes\<close> are empty, \<open>status\<close>
  is \<open>RESEARCHING\<close>, and \<open>idea_date\<close> is today's date; an argument that was given is
  kept.
\<close>

theorem create_defaults:
  assumes "wf_database db"
    and "length title_arg \<le> 200"
    and "length (case description_arg of None \<Rightarrow> [] | Some x \<Rightarrow> x) \<le> 2000"
    and "length (case notes_arg of None \<Rightarrow> [] | Some x \<Rightarrow> x) \<le> 5000"
  shows "\<exists>idea_data r.
           InvestmentIdeaCreate_init title_arg description_arg idea_date_arg status_arg notes_arg
             = Inr idea_data
           \<and> snd (snd (create_investment_idea today t1 t2 idea_data db)) = Inr r
           \<and> r_title r = title_arg
           \<and> r_description r = (case description_arg of None \<Rightarrow> [] | Some x \<Rightarrow> x)
           \<and> r_idea_date r = (case idea_date_arg of None \<Rightarrow> today | Some x \<Rightarrow> x)
           \<and> r_status r = (case status_arg of None \<Rightarrow> RESEARCHING | Some x \<Rightarrow> x)
           \<and> r_notes r = (case notes_arg of None \<Rightarrow> [] | Some x \<Rightarrow> x)"
proof -
  let ?d = "\<lparr>c_title = title_arg,
            c_description = (case description_arg of None \<Rightarrow> [] | Some x \<Rightarrow> x),
            c_idea_date = idea_date_arg,
            c_status = (case status_arg of None \<Rightarrow> RESEARCHING | Some x \<Rightarrow> x),
            c_notes = (case notes_arg of None \<Rightarrow> [] | Some x \<Rightarrow> x)\<rparr>"
  have init: "InvestmentIdeaCreate_init title_arg description_arg idea_date_arg status_arg
                notes_arg = Inr ?d"
    using assms(2-4) by (simp add: InvestmentIdeaCreate_init_eq)
  have valid: "valid_create ?d" by (rule InvestmentIdeaCreate_init_valid [OF init])
  have fresh: "id_seq db \<notin> stored_ids db" by (rule wf_fresh [OF assms(1)])
  have "snd (snd (create_investment_idea today t1 t2 ?d db))
          = Inr (read_of_row (inserted_row (id_seq db) today t1 t2 ?d))"
    by (simp add: create_eq [OF fresh valid])
  with init show ?thesis
    by (simp add: read_of_row_def inserted_row_def)
qed

theorem create_defaults_witness:
  "wf_database empty_database
   \<and> length ''Tesla Stock Analysis'' \<le> 200
   \<and> InvestmentIdeaCreate_init ''Tesla Stock Analysis'' None None None None = Inr example_create
   \<and> (\<exists>idea_data r.
         InvestmentIdeaCreate_init ''Tesla Stock Analysis'' None None None None = Inr idea_data
         \<and> snd (snd (create_investment_idea 20 100 101 idea_data empty_database)) = Inr r
         \<and> r_title r = ''Tesla Stock Analysis''
         \<and> r_description r = [] \<and> r_idea_date r = 20 \<and> r_status r = RESEARCHING
         \<and> r_notes r = [])
   \<and> (\<exists>idea_data r.
         InvestmentIdeaCreate_init ''Watchlist Idea'' None None (Some WATCHLIST) None
           = Inr idea_data
         \<and> snd (snd (create_investment_idea 20 100 101 idea_data empty_database)) = Inr r
         \<and> r_title r = ''Watchlist Idea''
         \<and> r_description r = [] \<and> r_idea_date r = 20 \<and> r_status r = WATCHLIST
         \<and> r_notes r = [])"
proof -
  have init: "InvestmentIdeaCreate_init ''Tesla Stock Analysis'' None None None None
                = Inr example_create"
    by (simp add: InvestmentIdeaCreate_init_eq example_create_def)
  have l1: "length ''Tesla Stock Analysis'' \<le> 200" and l2: "length ''Watchlist Idea'' \<le> 200"
    by simp_all
  have e: "length (case None :: string option of None \<Rightarrow> [] | Some x \<Rightarrow> x) \<le> 2000"
    "length (case None :: string option of None \<Rightarrow> [] | Some x \<Rightarrow> x) \<le> 5000"
    by simp_all
  from create_defaults [OF wf_empty l1 e, of None None 20 100 101]
    create_defaults [OF wf_empty l2 e, of None "Some WATCHLIST" 20 100 101]
  show ?thesis
    using wf_empty l1 init by simp
qed

text \<open>
  C10: \<open>create_investment_idea\<close> assigns to the object it is given: when the Create view
  comes with \<open>idea_date\<close> equal to \<open>None\<close>, the caller's object has \<open>idea_date\<close> equal to
  today's date afterwards, and is otherwise as it was.
\<close>

theorem create_mutates_input:
  "c_idea_date d = None \<Longrightarrow>
   fst (create_investment_idea today t1 t2 d db) = d\<lparr>c_idea_date := Some today\<rparr>"
  by (simp add: create_investment_idea_def Let_def split: sum.splits prod.splits)

theorem create_mutates_input_witness:
  "c_idea_date example_create = None
   \<and> fst (create_investment_idea 20 100 101 example_create empty_database) =
       example_create\<lparr>c_idea_date := Some 20\<rparr>"
proof -
  have h: "c_idea_date example_create = None" by (simp add: example_create_def)
  show ?thesis using create_mutates_input [OF h, of 20 100 101 empty_database] h by simp
qed

section \<open>Listing\<close>

lemma length_run_creates:
  "wf_database db \<Longrightarrow> \<forall>op \<in> set ops. is_valid_Create op \<Longrightarrow>
   length (investment_ideas (run ops db)) = length (investment_ideas db) + length ops"
proof (induction ops arbitrary: db)
  case Nil
  then show ?case by (simp add: run_def)
next
  case (Cons op ops)
  from Cons.prems obtain today t1 t2 d where op: "op = Create today t1 t2 d"
    and valid: "valid_create d"
    by (cases op) auto
  have wf': "wf_database (perform op db)" by (rule wf_perform [OF Cons.prems(1)])
  have "length (investment_ideas (perform op db)) = length (investment_ideas db) + 1"
    using wf_fresh [OF Cons.prems(1)] valid by (simp add: op create_rows)
  moreover have "length (investment_ideas (run ops (perform op db))) =
      length (investment_ideas (perform op db)) + length ops"
    using Cons.IH [OF wf'] Cons.prems(2) by simp
  ultimately show ?case by (simp add: run_def)
qed

lemma three_creates:
  assumes "valid_create a" and "valid_create b" and "valid_create c"
    and "tA < tB" and "tB < tC"
  shows "\<exists>ia ib ic db1 db2 db3 ra rb rc.
           create_investment_idea dA tA tA' a empty_database = (ia, db1, Inr ra)
           \<and> create_investment_idea dB tB tB' b db1 = (ib, db2, Inr rb)
           \<and> create_investment_idea dC tC tC' c db2 = (ic, db3, Inr rc)
           \<and> get_all_investment_ideas db3 = Inr [rc, rb, ra]"
proof -
  let ?A = "inserted_row 1 dA tA tA' a"
  let ?B = "inserted_row 2 dB tB tB' b"
  let ?C = "inserted_row 3 dC tC tC' c"
  let ?db1 = "\<lparr>investment_ideas = [?A], id_seq = 2\<rparr>"
  let ?db2 = "\<lparr>investment_ideas = [?A, ?B], id_seq = 3\<rparr>"
  let ?db3 = "\<lparr>investment_ideas = [?A, ?B, ?C], id_seq = 4\<rparr>"
  have 1: "snd (create_investment_idea dA tA tA' a empty_database) = (?db1, Inr (read_of_row ?A))"
    using assms(1) by (simp add: create_eq stored_ids_def empty_database_def)
  have 2: "snd (create_investment_idea dB tB tB' b ?db1) = (?db2, Inr (read_of_row ?B))"
    using assms(2) by (simp add: create_eq stored_ids_def inserted_row_def)
  have 3: "snd (create_investment_idea dC tC tC' c ?db2) = (?db3, Inr (read_of_row ?C))"
    using assms(3) by (simp add: create_eq stored_ids_def inserted_row_def)
  have c: "col_created_at ?A = tA" "col_created_at ?B = tB" "col_created_at ?C = tC"
    by (simp_all add: inserted_row_def)
  have "get_all_investment_ideas ?db3 = Inr [read_of_row ?C, read_of_row ?B, read_of_row ?A]"
    using assms(4,5) by (simp add: get_all_eq order_by_desc_created_at_def c)
  with 1 2 3 show ?thesis
    by (metis prod.collapse)
qed

text \<open>
  C4, as amended: for every store, \<open>get_all_investment_ideas\<close> returns the stored
  entities, each once, in descending order of \<open>created_at\<close>. After \<open>N\<close> creates of valid
  inputs on the empty store it returns \<open>N\<close> entities, and after three such creates A, B,
  C in a row, each created at a later reading of the clock than the one before, it
  returns C, B, A.
\<close>

theorem get_all_ordered:
  "(\<exists>rs. get_all_investment_ideas db = Inr rs
        \<and> mset rs = mset (map read_of_row (investment_ideas db))
        \<and> created_at_descending rs)
   \<and> ((\<forall>op \<in> set ops. is_valid_Create op) \<longrightarrow>
        (\<exists>rs. get_all_investment_ideas (run ops empty_database) = Inr rs
              \<and> length rs = length ops))
   \<and> (valid_create a \<and> valid_create b \<and> valid_create c \<and> tA < tB \<and> tB < tC \<longrightarrow>
        (\<exists>ia ib ic db1 db2 db3 ra rb rc.
           create_investment_idea dA tA tA' a empty_database = (ia, db1, Inr ra)
           \<and> create_investment_idea dB tB tB' b db1 = (ib, db2, Inr rb)
           \<and> create_investment_idea dC tC tC' c db2 = (ic, db3, Inr rc)
           \<and> get_all_investment_ideas db3 = Inr [rc, rb, ra]))"
proof (intro conjI impI)
  show "\<exists>rs. get_all_investment_ideas db = Inr rs
        \<and> mset rs = mset (map read_of_row (investment_ideas db))
        \<and> created_at_descending rs"
    by (simp add: get_all_eq created_at_descending_order_by mset_order_by)
next
  assume "\<forall>op \<in> set ops. is_valid_Create op"
  then have "length (investment_ideas (run ops empty_database)) = length ops"
    using length_run_creates [OF wf_empty, of ops] by (simp add: empty_database_def)
  then show "\<exists>rs. get_all_investment_ideas (run ops empty_database) = Inr rs
              \<and> length rs = length ops"
    by (simp add: get_all_eq order_by_desc_created_at_def)
next
  assume "valid_create a \<and> valid_create b \<and> valid_create c \<and> tA < tB \<and> tB < tC"
  then show "\<exists>ia ib ic db1 db2 db3 ra rb rc.
           create_investment_idea dA tA tA' a empty_database = (ia, db1, Inr ra)
           \<and> create_investment_idea dB tB tB' b db1 = (ib, db2, Inr rb)
           \<and> create_investment_idea dC tC tC' c db2 = (ic, db3, Inr rc)
           \<and> get_all_investment_ideas db3 = Inr [rc, rb, ra]"
    by (intro three_creates) simp_all
qed

theorem get_all_ordered_witness:
  "is_valid_Create (Create 20 100 101 example_first)
   \<and> is_valid_Create (Create 20 200 201 example_second)
   \<and> valid_create example_first \<and> valid_create example_second \<and> valid_create example_third
   \<and> (100::int) < 200 \<and> (200::int) < 300
   \<and> (\<exists>rs. get_all_investment_ideas example_database2 = Inr rs
        \<and> mset rs = mset (map read_of_row (investment_ideas example_database2))
        \<and> created_at_descending rs)
   \<and> (\<exists>rs. get_all_investment_ideas
              (run [Create 20 100 101 example_first, Create 20 200 201 example_second]
                 empty_database) = Inr rs
          \<and> length rs
              = length [Create 20 100 101 example_first, Create 20 200 201 example_second])
   \<and> (\<exists>ia ib ic db1 db2 db3 ra rb rc.
           create_investment_idea 20 100 101 example_first empty_database = (ia, db1, Inr ra)
           \<and> create_investment_idea 20 200 201 example_second db1 = (ib, db2, Inr rb)
           \<and> create_investment_idea 20 300 301 example_third db2 = (ic, db3, Inr rc)
           \<and> get_all_investment_ideas db3 = Inr [rc, rb, ra])"
proof -
  have v: "valid_create example_first" "valid_create example_second"
    "valid_create example_third"
    by (simp_all add: valid_create_def example_first_def example_second_def example_third_def)
  have h: "\<forall>op \<in> set [Create 20 100 101 example_first, Create 20 200 201 example_second].
       is_valid_Create op"
    by (simp add: v)
  have t: "(100::int) < 200 \<and> (200::int) < 300" by simp
  from get_all_ordered [of example_database2
        "[Create 20 100 101 example_first, Create 20 200 201 example_second]"
        example_first example_second example_third
        100 200 300 20 101 20 201 20 301]
  show ?thesis using h t v by simp
qed

text \<open>
  C4 as stated fails: the order is that of the \<open>created_at\<close> readings, not that of the
  calls. With the readings 100, 200 and 150 for three creates A, B, C in a row on the
  empty store, the result is B, C, A. With three equal readings any order is descending;
  the model, which keeps rows of equal \<open>created_at\<close> in table order, returns A, B, C.
\<close>

theorem get_all_order_counterexample:
  "get_all_investment_ideas
     (run [Create 20 100 101 example_first, Create 20 200 201 example_second,
           Create 20 150 151 example_third] empty_database) =
     Inr [read_of_row (inserted_row 2 20 200 201 example_second),
          read_of_row (inserted_row 3 20 150 151 example_third),
          read_of_row (inserted_row 1 20 100 101 example_first)]
   \<and> get_all_investment_ideas
     (run [Create 20 100 101 example_first, Create 20 100 101 example_second,
           Create 20 100 101 example_third] empty_database) =
     Inr [read_of_row (inserted_row 1 20 100 101 example_first),
          read_of_row (inserted_row 2 20 100 101 example_second),
          read_of_row (inserted_row 3 20 100 101 example_third)]"
  by code_simp

text \<open>
  C5: for every status and every store, \<open>get_ideas_by_status\<close> returns the stored
  entities with that status, each once and no other, in descending order of
  \<open>created_at\<close>; when no stored entity has the status the result is the empty list, not
  an error.
\<close>

theorem get_by_status_exact:
  "(\<exists>rs. get_ideas_by_status st db = Inr rs
        \<and> mset rs = mset (filter (\<lambda>r. r_status r = st) (map read_of_row (investment_ideas db)))
        \<and> created_at_descending rs)
   \<and> ((\<forall>r \<in> set (investment_ideas db). col_status r \<noteq> st) \<longrightarrow> get_ideas_by_status st db = Inr [])"
proof -
  have "mset (map read_of_row (order_by_desc_created_at
                (filter (\<lambda>r. col_status r = st) (investment_ideas db))))
        = mset (filter (\<lambda>r. r_status r = st) (map read_of_row (investment_ideas db)))"
    by (simp add: mset_order_by filter_map o_def read_of_row_def)
  moreover have "(\<forall>r \<in> set (investment_ideas db). col_status r \<noteq> st) \<Longrightarrow>
      filter (\<lambda>r. col_status r = st) (investment_ideas db) = []"
    by (simp add: filter_empty_conv)
  ultimately show ?thesis
    using created_at_descending_order_by [of "filter (\<lambda>r. col_status r = st) (investment_ideas db)"]
    unfolding get_by_status_eq
    by (intro conjI exI impI) (auto simp: order_by_desc_created_at_def)
qed

theorem get_by_status_exact_witness:
  "investment_ideas example_database = [example_row]
   \<and> col_status example_row \<noteq> REJECTED
   \<and> get_ideas_by_status REJECTED example_database = Inr []
   \<and> (\<exists>rs. get_ideas_by_status RESEARCHING example_database = Inr rs
        \<and> mset rs = mset (filter (\<lambda>r. r_status r = RESEARCHING)
                           (map read_of_row (investment_ideas example_database)))
        \<and> created_at_descending rs)"
proof -
  have h: "\<forall>r \<in> set (investment_ideas example_database). col_status r \<noteq> REJECTED"
    by (simp add: example_database_def example_row_def)
  have rows: "investment_ideas example_database = [example_row]"
    and st: "col_status example_row \<noteq> REJECTED"
    by (simp_all add: example_database_def example_row_def)
  show ?thesis
    using get_by_status_exact [of REJECTED example_database]
      get_by_status_exact [of RESEARCHING example_database] h rows st
    by blast
qed

section \<open>Updating\<close>

text \<open>
  C7: for an id that no row of the table has, \<open>update_investment_idea\<close> returns \<open>None\<close>,
  whatever the Update view, and the store it leaves is the store it found.
\<close>

theorem update_missing_id:
  "i \<notin> stored_ids db \<Longrightarrow> update_investment_idea t i u db = (db, Inr None)"
  by (simp add: update_missing row_of_None_iff)

theorem update_missing_id_witness:
  "999 \<notin> stored_ids example_database
   \<and> update_investment_idea 200 999 example_update_title_None example_database =
       (example_database, Inr None)"
proof -
  have h: "999 \<notin> stored_ids example_database" by (simp add: stored_ids_example)
  show ?thesis
    using update_missing_id [OF h, of 200 example_update_title_None] h by simp
qed

lemma update_keeps_ungiven_fields:
  assumes "row_of db i = Some row"
    and "row_of (fst (update_investment_idea t i u db)) i = Some row'"
  shows "col_id row' = col_id row \<and> col_created_at row' = col_created_at row
         \<and> (F_title \<notin> model_fields_set u \<or> u_title u = None \<longrightarrow>
              col_title row' = col_title row)
         \<and> (F_description \<notin> model_fields_set u \<or> u_description u = None \<longrightarrow>
              col_description row' = col_description row)
         \<and> (F_idea_date \<notin> model_fields_set u \<or> u_idea_date u = None \<longrightarrow>
              col_idea_date row' = col_idea_date row)
         \<and> (F_status \<notin> model_fields_set u \<or> u_status u = None \<longrightarrow>
              col_status row' = col_status row)
         \<and> (F_notes \<notin> model_fields_set u \<or> u_notes u = None \<longrightarrow>
              col_notes row' = col_notes row)"
proof (cases "no_field_set_to_None u \<and> valid_row (updated_row t u row)")
  case False
  then have "fst (update_investment_idea t i u db) = db"
    by (auto simp: update_eq [OF assms(1)])
  then show ?thesis using assms by simp
next
  case True
  have id: "col_id (updated_row t u row) = i"
    using row_of_SomeD [OF assms(1)] by (simp add: updated_row_def)
  have "i \<in> stored_ids db" using assms(1) row_of_None_iff [of db i] by auto
  then have "row' = updated_row t u row"
    using assms(2) True by (simp add: update_eq [OF assms(1)] row_of_replace [OF id])
  then show ?thesis
    using True by (auto simp: updated_row_def no_field_set_to_None_def)
qed


section \<open>Timestamps\<close>

lemma updated_row_simps:
  "col_id (updated_row t u row) = col_id row"
  "col_created_at (updated_row t u row) = col_created_at row"
  "col_updated_at (updated_row t u row) = t"
  by (simp_all add: updated_row_def)

lemma inserted_row_simps:
  "col_id (inserted_row pk today t1 t2 d) = pk"
  "col_created_at (inserted_row pk today t1 t2 d) = t1"
  "col_updated_at (inserted_row pk today t1 t2 d) = t2"
  by (simp_all add: inserted_row_def)

lemma created_at_kept:
  assumes "row_of db j = Some row" and "row_of (perform op db) j = Some row'"
  shows "col_created_at row' = col_created_at row"
proof (cases op)
  case (Create today t1 t2 d)
  have j: "j \<in> stored_ids db" using assms(1) row_of_None_iff [of db j] by auto
  show ?thesis
  proof (cases "id_seq db \<in> stored_ids db \<or> \<not> valid_create d")
    case True
    then have "perform op db = db"
      by (auto simp: Create create_conflict create_invalid)
    then show ?thesis using assms by simp
  next
    case False
    then show ?thesis using assms j by (simp add: Create create_eq row_of_append_old)
  qed
next
  case (Update t i u)
  show ?thesis
  proof (cases "row_of db i")
    case None
    then show ?thesis using assms by (simp add: Update update_missing)
  next
    case (Some r)
    have id: "col_id (updated_row t u r) = i"
      using row_of_SomeD [OF Some] by (simp add: updated_row_simps)
    show ?thesis
    proof (cases "no_field_set_to_None u \<and> valid_row (updated_row t u r)")
      case False
      then have "perform op db = db" by (auto simp: Update update_eq [OF Some])
      then show ?thesis using assms by simp
    next
      case True
      then show ?thesis
        using assms Some
        by (auto simp: Update update_eq [OF Some] row_of_replace [OF id] updated_row_simps
            split: if_splits)
    qed
  qed
next
  case (Delete i)
  then show ?thesis using assms by (auto simp: delete_eq row_of_delete split: if_splits)
qed

lemma created_le_updated_run:
  assumes "sorted (concat (map utcnow_readings ops))"
    and "\<forall>r \<in> set (investment_ideas db). col_created_at r \<le> col_updated_at r
            \<and> (\<forall>t \<in> set (concat (map utcnow_readings ops)). col_updated_at r \<le> t)"
  shows "\<forall>r \<in> set (investment_ideas (run ops db)). col_created_at r \<le> col_updated_at r"
  using assms
proof (induction ops arbitrary: db)
  case Nil
  then show ?case by (simp add: run_def)
next
  case (Cons op ops)
  let ?later = "concat (map utcnow_readings ops)"
  have sorted_later: "sorted ?later"
    using Cons.prems(1) by (simp add: sorted_append)
  have before: "\<forall>s \<in> set (utcnow_readings op). \<forall>t \<in> set ?later. s \<le> t"
    using Cons.prems(1) by (auto simp: sorted_append)
  have old: "\<forall>r \<in> set (investment_ideas db). col_created_at r \<le> col_updated_at r
      \<and> (\<forall>t \<in> set (utcnow_readings op). col_updated_at r \<le> t)
      \<and> (\<forall>t \<in> set ?later. col_updated_at r \<le> t)"
    using Cons.prems(2) by auto
  have "\<forall>r \<in> set (investment_ideas (perform op db)). col_created_at r \<le> col_updated_at r
            \<and> (\<forall>t \<in> set ?later. col_updated_at r \<le> t)"
  proof (cases op)
    case (Create today t1 t2 d)
    have "t1 \<le> t2" using Cons.prems(1) by (simp add: Create)
    then show ?thesis
      using old before by (auto simp: Create create_rows inserted_row_simps)
  next
    case (Update t i u)
    show ?thesis
    proof (cases "row_of db i")
      case None
      then show ?thesis using old by (simp add: Update update_rows)
    next
      case (Some row)
      have "row \<in> set (investment_ideas db)" using row_of_SomeD [OF Some] by simp
      then have "col_created_at row \<le> t" using old by (fastforce simp: Update)
      then show ?thesis
        using old before by (auto simp: Update update_rows Some updated_row_simps)
    qed
  next
    case (Delete i)
    then show ?thesis using old by (auto simp: delete_eq session_delete_def)
  qed
  from Cons.IH [OF sorted_later this] show ?case by (simp add: run_def)
qed

lemma update_success:
  assumes "update_investment_idea t i u db = (db', Inr (Some r))"
  shows "\<exists>row. row_of db i = Some row \<and> no_field_set_to_None u
           \<and> r = read_of_row (updated_row t u row)
           \<and> row_of db' i = Some (updated_row t u row)"
proof (cases "row_of db i")
  case None
  then show ?thesis using assms by (simp add: update_missing)
next
  case (Some row)
  have ok: "no_field_set_to_None u" and valid: "valid_row (updated_row t u row)"
    using assms by (simp_all add: update_eq [OF Some] split: if_splits)
  have id: "col_id (updated_row t u row) = i"
    using row_of_SomeD [OF Some] by (simp add: updated_row_def)
  have "i \<in> stored_ids db" using Some row_of_None_iff [of db i] by auto
  then have "row_of (fst (update_investment_idea t i u db)) i = Some (updated_row t u row)"
    using ok valid by (simp add: update_eq [OF Some] row_of_replace [OF id])
  moreover have "r = read_of_row (updated_row t u row)"
    using assms ok valid by (simp add: update_eq [OF Some])
  ultimately show ?thesis using Some ok assms by simp
qed

lemma update_nothing_given:
  assumes "row_of db i = Some row" and "model_fields_set u = {}" and "valid_row row"
  shows "update_investment_idea t i u db =
           (db\<lparr>investment_ideas :=
                 map (\<lambda>x. if col_id x = i then row\<lparr>col_updated_at := t\<rparr> else x)
                   (investment_ideas db)\<rparr>,
            Inr (Some (read_of_row (row\<lparr>col_updated_at := t\<rparr>))))"
proof -
  have "no_field_set_to_None u" using assms(2) by (simp add: no_field_set_to_None_def)
  moreover have eq: "updated_row t u row = row\<lparr>col_updated_at := t\<rparr>"
    using assms(2) by (simp add: updated_row_def)
  moreover have "valid_row (updated_row t u row)"
    using assms(3) by (simp add: eq valid_row_def)
  ultimately show ?thesis by (simp add: update_eq [OF assms(1)])
qed

text \<open>
  C9, as amended: an update that succeeds stores the clock reading of the call as
  \<open>updated_at\<close> and returns it, and leaves \<open>created_at\<close> as it was; this also holds when
  the Update view gives no field at all, in which case the update of a row of a
  well-formed store succeeds and nothing else of the row changes. No call of the service
  changes the \<open>created_at\<close> of a stored row. Starting from the empty store, every stored
  row has \<open>created_at \<le> updated_at\<close> after every sequence of calls during which the
  readings of the clock never decrease.
\<close>

theorem updated_at_refreshed:
  "(update_investment_idea t i u db = (db', Inr (Some r)) \<longrightarrow>
      r_updated_at r = t
      \<and> (\<exists>old new. row_of db i = Some old \<and> row_of db' i = Some new \<and> read_of_row new = r
            \<and> col_updated_at new = t \<and> col_created_at new = col_created_at old))
   \<and> (wf_database db \<and> row_of db i = Some row \<and> model_fields_set u = {} \<longrightarrow>
        update_investment_idea t i u db =
          (db\<lparr>investment_ideas :=
                map (\<lambda>x. if col_id x = i then row\<lparr>col_updated_at := t\<rparr> else x)
                  (investment_ideas db)\<rparr>,
           Inr (Some (read_of_row (row\<lparr>col_updated_at := t\<rparr>)))))
   \<and> (row_of db j = Some row \<and> row_of (perform op db) j = Some row' \<longrightarrow>
        col_created_at row' = col_created_at row)
   \<and> (sorted (concat (map utcnow_readings ops)) \<longrightarrow>
        (\<forall>x \<in> set (investment_ideas (run ops empty_database)).
            col_created_at x \<le> col_updated_at x))"
proof (intro conjI impI)
  assume a: "update_investment_idea t i u db = (db', Inr (Some r))"
  from update_success [OF a] obtain old where old: "row_of db i = Some old"
    and r: "r = read_of_row (updated_row t u old)"
    and new: "row_of db' i = Some (updated_row t u old)"
    by blast
  show "r_updated_at r = t" by (simp add: r read_of_row_def updated_row_simps)
  have "col_updated_at (updated_row t u old) = t
      \<and> col_created_at (updated_row t u old) = col_created_at old"
    by (simp add: updated_row_simps)
  with old r new
  show "\<exists>old new. row_of db i = Some old \<and> row_of db' i = Some new \<and> read_of_row new = r
            \<and> col_updated_at new = t \<and> col_created_at new = col_created_at old"
    by blast
next
  assume a: "wf_database db \<and> row_of db i = Some row \<and> model_fields_set u = {}"
  then have "row \<in> set (investment_ideas db)" using row_of_SomeD by blast
  then have "valid_row row" using a by (simp add: wf_database_def)
  then show "update_investment_idea t i u db =
          (db\<lparr>investment_ideas :=
                map (\<lambda>x. if col_id x = i then row\<lparr>col_updated_at := t\<rparr> else x)
                  (investment_ideas db)\<rparr>,
           Inr (Some (read_of_row (row\<lparr>col_updated_at := t\<rparr>))))"
    using a by (simp add: update_nothing_given)
next
  assume "row_of db j = Some row \<and> row_of (perform op db) j = Some row'"
  then show "col_created_at row' = col_created_at row"
    using created_at_kept by blast
next
  assume "sorted (concat (map utcnow_readings ops))"
  then show "\<forall>x \<in> set (investment_ideas (run ops empty_database)).
            col_created_at x \<le> col_updated_at x"
    by (rule created_le_updated_run) (simp add: empty_database_def)
qed

theorem updated_at_refreshed_witness:
  "update_investment_idea 200 1 example_update_status example_database =
     (\<lparr>investment_ideas = [example_row\<lparr>col_status := INVESTED, col_updated_at := 200\<rparr>],
       id_seq = 2\<rparr>,
      Inr (Some (read_of_row (example_row\<lparr>col_status := INVESTED, col_updated_at := 200\<rparr>))))
   \<and> r_updated_at (read_of_row (example_row\<lparr>col_status := INVESTED, col_updated_at := 200\<rparr>))
       = 200
   \<and> wf_database example_database
   \<and> row_of example_database 1 = Some example_row
   \<and> model_fields_set example_update_empty = {}
   \<and> update_investment_idea 200 1 example_update_empty example_database =
       (example_database\<lparr>investment_ideas :=
           map (\<lambda>x. if col_id x = 1 then example_row\<lparr>col_updated_at := 200\<rparr> else x)
             (investment_ideas example_database)\<rparr>,
        Inr (Some (read_of_row (example_row\<lparr>col_updated_at := 200\<rparr>))))
   \<and> row_of (perform (Update 200 1 example_update_status) example_database) 1 =
       Some (example_row\<lparr>col_status := INVESTED, col_updated_at := 200\<rparr>)
   \<and> col_created_at (example_row\<lparr>col_status := INVESTED, col_updated_at := 200\<rparr>) =
       col_created_at example_row
   \<and> sorted (concat (map utcnow_readings
        [Create 20 100 101 example_create, Update 200 1 example_update_status]))
   \<and> investment_ideas
        (run [Create 20 100 101 example_create, Update 200 1 example_update_status]
           empty_database) =
       [\<lparr>col_id = 1, col_title = ''Tesla Stock Analysis'', col_description = [],
         col_idea_date = 20, col_status = INVESTED, col_notes = [],
         col_created_at = 100, col_updated_at = 200\<rparr>]
   \<and> col_created_at \<lparr>col_id = 1, col_title = ''Tesla Stock Analysis'', col_description = [],
         col_idea_date = 20, col_status = INVESTED, col_notes = [],
         col_created_at = 100, col_updated_at = 200\<rparr>
       \<le> col_updated_at \<lparr>col_id = 1, col_title = ''Tesla Stock Analysis'', col_description = [],
         col_idea_date = 20, col_status = INVESTED, col_notes = [],
         col_created_at = 100, col_updated_at = 200\<rparr>"
proof -
  let ?new = "example_row\<lparr>col_status := INVESTED, col_updated_at := 200\<rparr>"
  let ?ops = "[Create 20 100 101 example_create, Update 200 1 example_update_status]"
  let ?R = "\<lparr>col_id = 1, col_title = ''Tesla Stock Analysis'', col_description = [],
         col_idea_date = 20, col_status = INVESTED, col_notes = [],
         col_created_at = 100, col_updated_at = 200\<rparr>"
  note thm1 = updated_at_refreshed [of 200 1 example_update_status example_database
        "\<lparr>investment_ideas = [?new], id_seq = 2\<rparr>" "read_of_row ?new" example_row 1
        "Update 200 1 example_update_status" ?new ?ops]
  note thm2 = updated_at_refreshed [of 200 1 example_update_empty example_database
        "\<lparr>investment_ideas = [?new], id_seq = 2\<rparr>" "read_of_row ?new" example_row 1
        "Update 200 1 example_update_status" ?new ?ops]
  have h1: "model_fields_set example_update_empty = {}"
    by (simp add: example_update_empty_def)
  have h2: "row_of (perform (Update 200 1 example_update_status) example_database) 1 = Some ?new"
    by (simp add: update_example_status row_of_def example_row_def)
  have h3: "sorted (concat (map utcnow_readings ?ops))"
    by simp
  have rows: "investment_ideas (run ?ops empty_database) = [?R]"
    by code_simp
  have "\<forall>x \<in> set (investment_ideas (run ?ops empty_database)).
          col_created_at x \<le> col_updated_at x"
    using thm1 h3 by blast
  then have le: "col_created_at ?R \<le> col_updated_at ?R"
    unfolding rows by simp
  have a: "r_updated_at (read_of_row ?new) = 200"
    using thm1 update_example_status by blast
  have b: "col_created_at ?new = col_created_at example_row"
    using thm1 row_of_example h2 by blast
  have c: "update_investment_idea 200 1 example_update_empty example_database =
       (example_database\<lparr>investment_ideas :=
           map (\<lambda>x. if col_id x = 1 then example_row\<lparr>col_updated_at := 200\<rparr> else x)
             (investment_ideas example_database)\<rparr>,
        Inr (Some (read_of_row (example_row\<lparr>col_updated_at := 200\<rparr>))))"
    using thm2 wf_example row_of_example h1 by blast
  show ?thesis
    using update_example_status a wf_example row_of_example h1 c h2 b h3 rows le
    by (intro conjI)
qed

text \<open>
  C9 as stated fails: \<open>updated_at\<close> is whatever the clock reads at the update, and the
  clock of the host can be set back. After a create at the readings 100 and 101 and an
  update of that idea at the reading 50, the stored row has \<open>created_at = 100\<close> and
  \<open>updated_at = 50\<close>.
\<close>

theorem updated_at_counterexample:
  "investment_ideas
     (run [Create 20 100 101 example_create, Update 50 1 example_update_status]
        empty_database) =
     [\<lparr>col_id = 1, col_title = ''Tesla Stock Analysis'', col_description = [],
       col_idea_date = 20, col_status = INVESTED, col_notes = [],
       col_created_at = 100, col_updated_at = 50\<rparr>]
   \<and> \<not> col_created_at \<lparr>col_id = 1, col_title = ''Tesla Stock Analysis'',
         col_description = [], col_idea_date = 20, col_status = INVESTED, col_notes = [],
         col_created_at = 100, col_updated_at = 50\<rparr>
       \<le> col_updated_at \<lparr>col_id = 1, col_title = ''Tesla Stock Analysis'',
         col_description = [], col_idea_date = 20, col_status = INVESTED, col_notes = [],
         col_created_at = 100, col_updated_at = 50\<rparr>"
  by code_simp

section \<open>Deleting\<close>

text \<open>
  C8: \<open>delete_investment_idea\<close> returns \<open>False\<close> and leaves the store as it found it when
  no row has the id. When a row has it, the call returns \<open>True\<close> and the rows it leaves
  are the other rows, as they were: the id is no longer stored, reading it by id returns
  \<open>None\<close>, and reading any other id returns what it returned before.
\<close>

theorem delete_removes:
  "(i \<notin> stored_ids db \<longrightarrow> delete_investment_idea i db = (db, False))
   \<and> (i \<in> stored_ids db \<longrightarrow>
        snd (delete_investment_idea i db) = True
        \<and> investment_ideas (fst (delete_investment_idea i db)) =
            filter (\<lambda>r. col_id r \<noteq> i) (investment_ideas db)
        \<and> i \<notin> stored_ids (fst (delete_investment_idea i db))
        \<and> get_investment_idea_by_id (fst (delete_investment_idea i db)) i = Inr None
        \<and> (\<forall>j. j \<noteq> i \<longrightarrow>
              get_investment_idea_by_id (fst (delete_investment_idea i db)) j =
              get_investment_idea_by_id db j))"
proof (cases "i \<in> stored_ids db")
  case True
  have "investment_ideas (session_delete db i) = filter (\<lambda>r. col_id r \<noteq> i) (investment_ideas db)"
    by (simp add: session_delete_def)
  with True show ?thesis
    by (simp add: delete_eq get_by_id_eq row_of_delete stored_ids_delete)
next
  case False
  then show ?thesis by (simp add: delete_eq)
qed

theorem delete_removes_witness:
  "999 \<notin> stored_ids example_database2
   \<and> delete_investment_idea 999 example_database2 = (example_database2, False)
   \<and> 1 \<in> stored_ids example_database2
   \<and> snd (delete_investment_idea 1 example_database2) = True
   \<and> investment_ideas (fst (delete_investment_idea 1 example_database2)) = [example_row2]
   \<and> 1 \<notin> stored_ids (fst (delete_investment_idea 1 example_database2))
   \<and> get_investment_idea_by_id (fst (delete_investment_idea 1 example_database2)) 1 = Inr None
   \<and> get_investment_idea_by_id (fst (delete_investment_idea 1 example_database2)) 2 =
       Inr (Some (read_of_row example_row2))"
proof -
  have ids: "stored_ids example_database2 = {1, 2}"
    by (auto simp: stored_ids_def example_database2_def example_row_def example_row2_def)
  have h1: "999 \<notin> stored_ids example_database2" and h2: "1 \<in> stored_ids example_database2"
    by (simp_all add: ids)
  have f: "filter (\<lambda>r. col_id r \<noteq> 1) (investment_ideas example_database2) = [example_row2]"
    by (simp add: example_database2_def example_row_def example_row2_def)
  have g: "get_investment_idea_by_id example_database2 2 = Inr (Some (read_of_row example_row2))"
    by (simp add: get_by_id_eq row_of_def example_database2_def example_row_def
        example_row2_def)
  note missing = delete_removes [of 999 example_database2]
  note present = delete_removes [of 1 example_database2]
  have a: "delete_investment_idea 999 example_database2 = (example_database2, False)"
    using missing h1 by blast
  have b: "snd (delete_investment_idea 1 example_database2) = True"
    and c: "investment_ideas (fst (delete_investment_idea 1 example_database2)) =
              filter (\<lambda>r. col_id r \<noteq> 1) (investment_ideas example_database2)"
    and d: "1 \<notin> stored_ids (fst (delete_investment_idea 1 example_database2))"
    and e: "get_investment_idea_by_id (fst (delete_investment_idea 1 example_database2)) 1
              = Inr None"
    and other: "\<forall>j. j \<noteq> 1 \<longrightarrow>
         get_investment_idea_by_id (fst (delete_investment_idea 1 example_database2)) j =
         get_investment_idea_by_id example_database2 j"
    using present h2 by blast+
  have k: "get_investment_idea_by_id (fst (delete_investment_idea 1 example_database2)) 2 =
       Inr (Some (read_of_row example_row2))"
    using other g by simp
  show ?thesis
    using h1 a h2 b c d e k by (simp add: f)
qed

end
